theory Spec2Isabelle
  imports Complex_Main "HOL-Library.AList"
begin

section \<open>Python and numpy values\<close>

text \<open>
  The phonon density of states of \<^verbatim>\<open>pymatgen/phonon/dos.py\<close> and the Ising model of
  \<^verbatim>\<open>pymatgen/analysis/energy_models.py\<close>, embedded function by function. Floating-point
  numbers are idealised as real numbers: rounding and overflow are not modelled. What a
  float operation does outside the reals is kept: numpy returns \<open>inf\<close> or \<open>nan\<close> there
  (with a warning, without raising), and such a value is \<open>None\<close> of type \<open>npfloat\<close>.
  Exceptions are the left summand of a result.
\<close>

datatype error =
    IncompatibleSpectra    \<comment> \<open>\<^verbatim>\<open>ValueError("Frequencies of both DOS are not compatible!")\<close>\<close>
  | NoPositiveFrequencies  \<comment> \<open>\<^verbatim>\<open>ValueError("No positive frequencies found")\<close>\<close>
  | BroadcastError         \<comment> \<open>numpy's \<^verbatim>\<open>ValueError\<close>: operands could not be broadcast together\<close>
  | ZeroDivisionError
  | KeyError
  | IndexError
  | NonFiniteSigma         \<comment> \<open>\<^verbatim>\<open>gaussian_filter1d\<close> cannot turn an \<open>inf\<close> or \<open>nan\<close> width into a radius\<close>
  | InvalidRadius          \<comment> \<open>\<^verbatim>\<open>gaussian_filter1d\<close> has no kernel for a negative radius\<close>

fun is_ValueError :: "error \<Rightarrow> bool" where
  "is_ValueError IncompatibleSpectra = True"
| "is_ValueError NoPositiveFrequencies = True"
| "is_ValueError BroadcastError = True"
| "is_ValueError _ = False"

type_synonym npfloat = "real option"

definition lift2 :: "(real \<Rightarrow> real \<Rightarrow> real) \<Rightarrow> npfloat \<Rightarrow> npfloat \<Rightarrow> npfloat" where
  "lift2 f a b = (case a of None \<Rightarrow> None | Some x \<Rightarrow> (case b of None \<Rightarrow> None | Some y \<Rightarrow> Some (f x y)))"

definition np_divide :: "npfloat \<Rightarrow> npfloat \<Rightarrow> npfloat" where
  \<comment> \<open>numpy's true division: a zero divisor gives \<open>inf\<close> or \<open>nan\<close>\<close>
  "np_divide a b = (case a of None \<Rightarrow> None | Some x \<Rightarrow>
     (case b of None \<Rightarrow> None | Some y \<Rightarrow> if y = 0 then None else Some (x / y)))"

definition np_log :: "npfloat \<Rightarrow> npfloat" where
  \<comment> \<open>\<^verbatim>\<open>np.log\<close>: \<open>-inf\<close> at 0, \<open>nan\<close> below\<close>
  "np_log a = (case a of None \<Rightarrow> None | Some x \<Rightarrow> if x \<le> 0 then None else Some (ln x))"

definition broadcast2 :: "('a \<Rightarrow> 'b \<Rightarrow> 'c) \<Rightarrow> 'a list \<Rightarrow> 'b list \<Rightarrow> error + 'c list" where
  \<comment> \<open>an elementwise ufunc on two one-dimensional arrays: equal lengths, or one of length 1
      stretched to the other\<close>
  "broadcast2 f xs ys =
     (if length xs = length ys then Inr (map2 f xs ys)
      else if length xs = 1 then Inr (map (f (hd xs)) ys)
      else if length ys = 1 then Inr (map (\<lambda>x. f x (hd ys)) xs)
      else Inl BroadcastError)"

definition np_diff :: "real list \<Rightarrow> real list" where
  \<comment> \<open>\<^verbatim>\<open>np.diff(x)\<close> is \<^verbatim>\<open>x[1:] - x[:-1]\<close>\<close>
  "np_diff x = map2 (-) (tl x) (butlast x)"

definition np_sum :: "npfloat list \<Rightarrow> npfloat" where
  "np_sum ys = foldl (lift2 (+)) (Some 0) ys"

definition np_trapz :: "npfloat list \<Rightarrow> real list \<Rightarrow> error + npfloat" where
  \<comment> \<open>\<^verbatim>\<open>np.trapz(y, x=x)\<close>: \<^verbatim>\<open>(d * (y[1:] + y[:-1]) / 2.0).sum()\<close> with \<^verbatim>\<open>d = diff(x)\<close>\<close>
  "np_trapz y x =
     (case broadcast2 (\<lambda>d s. lift2 (*) (Some d) s) (np_diff x) (map2 (lift2 (+)) (tl y) (butlast y)) of
        Inl e \<Rightarrow> Inl e
      | Inr p \<Rightarrow> Inr (np_sum (map (\<lambda>v. lift2 (/) v (Some 2)) p)))"

function bsearch_left :: "real list \<Rightarrow> real \<Rightarrow> nat \<Rightarrow> nat \<Rightarrow> nat" where
  "bsearch_left arr key min_idx max_idx =
     (if min_idx < max_idx then
        (let mid_idx = min_idx + (max_idx - min_idx) div 2 in
         if arr ! mid_idx < key then bsearch_left arr key (mid_idx + 1) max_idx
         else bsearch_left arr key min_idx mid_idx)
      else min_idx)"
  by pat_completeness auto
termination
  by (relation "measure (\<lambda>(arr, key, min_idx, max_idx). max_idx - min_idx)") auto

declare bsearch_left.simps [simp del]

definition searchsorted :: "real list \<Rightarrow> real \<Rightarrow> nat" where
  \<comment> \<open>\<^verbatim>\<open>np.searchsorted(a, v)\<close>, side left: numpy's binary search over the whole array\<close>
  "searchsorted a v = bsearch_left a v 0 (length a)"

text \<open>The trapezoidal rule as a sum over consecutive points, to compare \<open>np_trapz\<close> with.\<close>

fun trapezoid :: "real list \<Rightarrow> real list \<Rightarrow> real" where
  "trapezoid (x0 # x1 # xs) (y0 # y1 # ys) =
     (x1 - x0) * (y1 + y0) / 2 + trapezoid (x1 # xs) (y1 # ys)"
| "trapezoid _ _ = 0"

section \<open>Constants\<close>

text \<open>\<^verbatim>\<open>scipy.constants\<close> (CODATA 2018) as the module reads them.\<close>

definition Boltzmann :: real where "Boltzmann = 1380649 / 10 ^ 29"
definition Avogadro :: real where "Avogadro = 602214076 * 10 ^ 15"
definition tera :: real where "tera = 10 ^ 12"
definition BOLTZ_THZ_PER_K :: real where "BOLTZ_THZ_PER_K = 20836619120 / tera"
definition THZ_TO_J :: real where "THZ_TO_J = (662607015 / 10 ^ 42) * tera"

section \<open>Structures\<close>

text \<open>
  The crystal structure is a collaborator outside these modules. The model keeps what the
  code reads of it: the sites it iterates over (\<open>len(structure)\<close> is their number, and a
  structure is truthy when it has a site), and the atom counts of its composition and of
  its reduced composition.
\<close>

record Species =
  symbol :: string
  spin :: "real option"  \<comment> \<open>\<open>None\<close>: the species has no attribute \<^verbatim>\<open>spin\<close>\<close>

record site =
  specie :: Species
  frac_coords :: "real \<times> real \<times> real"

record Structure =
  sites :: "site list"
  num_atoms :: real
  reduced_num_atoms :: real

section \<open>PhononDos\<close>

record phonon_dos =
  frequencies :: "real list"
  densities :: "real list"

definition PhononDos :: "real list \<Rightarrow> real list \<Rightarrow> phonon_dos" where
  "PhononDos fs ds = \<lparr>frequencies = fs, densities = ds\<rparr>"

definition ind_zero_freq :: "'a phonon_dos_scheme \<Rightarrow> error + nat" where
  "ind_zero_freq self =
     (let ind = searchsorted (frequencies self) 0 in
      if ind \<ge> length (frequencies self) then Inl NoPositiveFrequencies else Inr ind)"

definition positive_frequencies :: "'a phonon_dos_scheme \<Rightarrow> error + real list" where
  "positive_frequencies self =
     (case ind_zero_freq self of Inl e \<Rightarrow> Inl e | Inr ind \<Rightarrow> Inr (drop ind (frequencies self)))"

definition positive_densities :: "'a phonon_dos_scheme \<Rightarrow> error + real list" where
  "positive_densities self =
     (case ind_zero_freq self of Inl e \<Rightarrow> Inl e | Inr ind \<Rightarrow> Inr (drop ind (densities self)))"

definition per_formula_unit :: "npfloat \<Rightarrow> Structure option \<Rightarrow> error + npfloat" where
  \<comment> \<open>the block \<^verbatim>\<open>if structure: formula_units = ...; v /= formula_units\<close> that ends each of
      the five methods; the quotient of the two Python floats raises on a zero divisor\<close>
  "per_formula_unit v struct =
     (case struct of
        None \<Rightarrow> Inr v
      | Some s \<Rightarrow>
          if sites s \<noteq> [] then
            (if reduced_num_atoms s = 0 then Inl ZeroDivisionError
             else Inr (np_divide v (Some (num_atoms s / reduced_num_atoms s))))
          else Inr v)"

definition zero_point_energy :: "'a phonon_dos_scheme \<Rightarrow> Structure option \<Rightarrow> error + npfloat" where
  "zero_point_energy self struct =
     (case positive_frequencies self of Inl e \<Rightarrow> Inl e | Inr freqs \<Rightarrow>
     (case positive_densities self of Inl e \<Rightarrow> Inl e | Inr dens \<Rightarrow>
     (case broadcast2 (\<lambda>f d. Some (f * d)) freqs dens of Inl e \<Rightarrow> Inl e | Inr y \<Rightarrow>
     (case np_trapz y freqs of Inl e \<Rightarrow> Inl e | Inr integral \<Rightarrow>
        per_formula_unit
          (lift2 (*) (lift2 (*) (Some 0.5) integral) (Some (THZ_TO_J * Avogadro))) struct))))"

definition csch2 :: "real \<Rightarrow> npfloat" where
  \<comment> \<open>the local \<^verbatim>\<open>csch2(x) = 1.0 / (np.sinh(x) ** 2)\<close>\<close>
  "csch2 x = np_divide (Some 1) (Some ((sinh x) ^ 2))"

definition cv :: "'a phonon_dos_scheme \<Rightarrow> real \<Rightarrow> Structure option \<Rightarrow> error + npfloat" where
  "cv self t struct =
     (if t = 0 then Inr (Some 0) else
     (case positive_frequencies self of Inl e \<Rightarrow> Inl e | Inr freqs \<Rightarrow>
     (case positive_densities self of Inl e \<Rightarrow> Inl e | Inr dens \<Rightarrow>
     (let wd2kt = map (\<lambda>f. f / (2 * BOLTZ_THZ_PER_K * t)) freqs in
     (case broadcast2 (lift2 (*)) (map (\<lambda>x. lift2 (*) (Some (x ^ 2)) (csch2 x)) wd2kt) (map Some dens) of
        Inl e \<Rightarrow> Inl e | Inr y \<Rightarrow>
     (case np_trapz y freqs of Inl e \<Rightarrow> Inl e | Inr integral \<Rightarrow>
        per_formula_unit (lift2 (*) integral (Some (Boltzmann * Avogadro))) struct))))))"

definition entropy :: "'a phonon_dos_scheme \<Rightarrow> real \<Rightarrow> Structure option \<Rightarrow> error + npfloat" where
  "entropy self t struct =
     (if t = 0 then Inr (Some 0) else
     (case positive_frequencies self of Inl e \<Rightarrow> Inl e | Inr freqs \<Rightarrow>
     (case positive_densities self of Inl e \<Rightarrow> Inl e | Inr dens \<Rightarrow>
     (let wd2kt = map (\<lambda>f. f / (2 * BOLTZ_THZ_PER_K * t)) freqs in
     (case broadcast2 (lift2 (*))
             (map (\<lambda>x. lift2 (-) (np_divide (Some (x * 1)) (Some (tanh x)))
                                  (np_log (Some (2 * sinh x)))) wd2kt)
             (map Some dens) of
        Inl e \<Rightarrow> Inl e | Inr y \<Rightarrow>
     (case np_trapz y freqs of Inl e \<Rightarrow> Inl e | Inr integral \<Rightarrow>
        per_formula_unit (lift2 (*) integral (Some (Boltzmann * Avogadro))) struct))))))"

definition internal_energy :: "'a phonon_dos_scheme \<Rightarrow> real \<Rightarrow> Structure option \<Rightarrow> error + npfloat" where
  "internal_energy self t struct =
     (if t = 0 then zero_point_energy self struct else
     (case positive_frequencies self of Inl e \<Rightarrow> Inl e | Inr freqs \<Rightarrow>
     (case positive_densities self of Inl e \<Rightarrow> Inl e | Inr dens \<Rightarrow>
     (let wd2kt = map (\<lambda>f. f / (2 * BOLTZ_THZ_PER_K * t)) freqs in
     (case broadcast2 (lift2 (*))
             (map2 (\<lambda>f x. np_divide (Some (f * 1)) (Some (tanh x))) freqs wd2kt)
             (map Some dens) of
        Inl e \<Rightarrow> Inl e | Inr y \<Rightarrow>
     (case np_trapz y freqs of Inl e \<Rightarrow> Inl e | Inr integral \<Rightarrow>
        per_formula_unit
          (lift2 (*) (lift2 (/) integral (Some 2)) (Some (THZ_TO_J * Avogadro))) struct))))))"

definition helmholtz_free_energy ::
    "'a phonon_dos_scheme \<Rightarrow> real \<Rightarrow> Structure option \<Rightarrow> error + npfloat" where
  "helmholtz_free_energy self t struct =
     (if t = 0 then zero_point_energy self struct else
     (case positive_frequencies self of Inl e \<Rightarrow> Inl e | Inr freqs \<Rightarrow>
     (case positive_densities self of Inl e \<Rightarrow> Inl e | Inr dens \<Rightarrow>
     (let wd2kt = map (\<lambda>f. f / (2 * BOLTZ_THZ_PER_K * t)) freqs in
     (case broadcast2 (lift2 (*)) (map (\<lambda>x. np_log (Some (2 * sinh x))) wd2kt) (map Some dens) of
        Inl e \<Rightarrow> Inl e | Inr y \<Rightarrow>
     (case np_trapz y freqs of Inl e \<Rightarrow> Inl e | Inr integral \<Rightarrow>
        per_formula_unit (lift2 (*) integral (Some (Boltzmann * Avogadro * t))) struct))))))"

subsection \<open>Combination\<close>

definition dos_add :: "'a phonon_dos_scheme \<Rightarrow> 'b phonon_dos_scheme \<Rightarrow> error + phonon_dos" where
  \<comment> \<open>\<^verbatim>\<open>__add__\<close>; \<^verbatim>\<open>np.equal\<close> and \<^verbatim>\<open>+\<close> are ufuncs and broadcast\<close>
  "dos_add self other =
     (case broadcast2 (=) (frequencies self) (frequencies other) of Inl e \<Rightarrow> Inl e | Inr eq \<Rightarrow>
        if \<not> list_all id eq then Inl IncompatibleSpectra
        else (case broadcast2 (+) (densities self) (densities other) of Inl e \<Rightarrow> Inl e
              | Inr dens \<Rightarrow> Inr (PhononDos (frequencies self) dens)))"

definition dos_radd :: "'a phonon_dos_scheme \<Rightarrow> 'b phonon_dos_scheme \<Rightarrow> error + phonon_dos" where
  \<comment> \<open>\<^verbatim>\<open>__radd__\<close>\<close>
  "dos_radd self other = dos_add self other"

subsection \<open>Smearing\<close>

definition py_int :: "real \<Rightarrow> int" where
  \<comment> \<open>Python's \<^verbatim>\<open>int(x)\<close> of a finite float: truncation towards zero\<close>
  "py_int x = (if 0 \<le> x then \<lfloor>x\<rfloor> else \<lceil>x\<rceil>)"

definition gaussian_filter1d ::
    "(real list \<Rightarrow> real \<Rightarrow> real list) \<Rightarrow> real list \<Rightarrow> npfloat \<Rightarrow> error + npfloat list" where
  \<comment> \<open>scipy's filter is outside these modules; its control flow is kept. It starts with
      \<^verbatim>\<open>sd = float(sigma); lw = int(truncate * sd + 0.5)\<close>, \<^verbatim>\<open>truncate\<close> being 4.0, which raises on
      \<open>inf\<close> and \<open>nan\<close>. A negative radius \<open>lw\<close> leaves no kernel and is refused. The
      kernel is \<^verbatim>\<open>exp(-0.5 / sigma ** 2 * x ** 2)\<close>, normalised, over \<open>x\<close> from \<open>-lw\<close> to \<open>lw\<close>:
      at the numpy float 0 it is the single weight \<open>nan\<close>, and so is every output.
      Otherwise \<open>smooth\<close> stands for the correlation of the input with the kernel.\<close>
  "gaussian_filter1d smooth input sigma =
     (case sigma of
        None \<Rightarrow> Inl NonFiniteSigma
      | Some sd \<Rightarrow>
          (let lw = py_int (4 * sd + 0.5) in
           if lw < 0 then Inl InvalidRadius
           else if sd = 0 then Inr (map (\<lambda>v. None) input)
           else Inr (map Some (smooth input sd))))"

definition get_smeared_densities ::
    "(real list \<Rightarrow> real \<Rightarrow> real list) \<Rightarrow> 'a phonon_dos_scheme \<Rightarrow> real \<Rightarrow> error + npfloat list" where
  \<comment> \<open>\<^verbatim>\<open>range(len - 1)\<close> is empty for a length of 0 as well, as is \<open>[0..<0 - 1]\<close>;
      \<^verbatim>\<open>sum([]) / len([])\<close> is the integer division \<^verbatim>\<open>0 / 0\<close>\<close>
  "get_smeared_densities smooth self sigma =
     (let diff = map (\<lambda>idx. frequencies self ! (idx + 1) - frequencies self ! idx)
                     [0 ..< length (frequencies self) - 1] in
      if length diff = 0 then Inl ZeroDivisionError
      else (let avg_diff = sum_list diff / real (length diff) in
            gaussian_filter1d smooth (densities self) (np_divide (Some sigma) (Some avg_diff))))"

subsection \<open>Dict representation\<close>

text \<open>
  A dict with the keys the two classes write and read; \<open>None\<close> is an absent key. The dict
  of a structure is of a type \<open>'sj\<close> left open, with \<^verbatim>\<open>Structure.as_dict\<close> and
  \<^verbatim>\<open>Structure.from_dict\<close> as parameters.
\<close>

record 'sj dos_dict =
  at_module :: "string option"
  at_class :: "string option"
  dict_structure :: "'sj option"
  dict_frequencies :: "real list option"
  dict_densities :: "real list option"
  dict_pdos :: "real list list option"

definition getitem :: "'v option \<Rightarrow> error + 'v" where
  "getitem entry = (case entry of None \<Rightarrow> Inl KeyError | Some v \<Rightarrow> Inr v)"

definition from_dict :: "('sj, 'a) dos_dict_scheme \<Rightarrow> error + phonon_dos" where
  "from_dict d =
     (case getitem (dict_frequencies d) of Inl e \<Rightarrow> Inl e | Inr fs \<Rightarrow>
     (case getitem (dict_densities d) of Inl e \<Rightarrow> Inl e | Inr ds \<Rightarrow> Inr (PhononDos fs ds)))"

definition as_dict :: "phonon_dos \<Rightarrow> 'sj dos_dict" where
  "as_dict self =
     \<lparr>at_module = Some ''pymatgen.phonon.dos'', at_class = Some ''PhononDos'',
      dict_structure = None,
      dict_frequencies = Some (frequencies self), dict_densities = Some (densities self),
      dict_pdos = None\<rparr>"

section \<open>CompletePhononDos\<close>

text \<open>
  \<open>pdos\<close> is a Python dict keyed by sites: an association list in insertion order,
  looked up with \<open>map_of\<close>.
\<close>

record complete_phonon_dos = phonon_dos +
  pdos :: "(site \<times> real list) list"
  dos_structure :: Structure

definition CompletePhononDos ::
    "Structure \<Rightarrow> 'a phonon_dos_scheme \<Rightarrow> (site \<times> real list) list \<Rightarrow> complete_phonon_dos" where
  "CompletePhononDos struct total_dos pdoses =
     \<lparr>frequencies = frequencies total_dos, densities = densities total_dos,
      pdos = map (\<lambda>(s, dens). (s, dens)) pdoses, dos_structure = struct\<rparr>"

fun dict_of_pairs :: "('k \<times> 'v) list \<Rightarrow> ('k \<times> 'v) list \<Rightarrow> ('k \<times> 'v) list" where
  \<comment> \<open>\<^verbatim>\<open>dict(pairs)\<close>: a key seen again keeps its place and takes the later value\<close>
  "dict_of_pairs acc [] = acc"
| "dict_of_pairs acc ((k, v) # rest) = dict_of_pairs (AList.update k v acc) rest"

fun pdos_in_site_order :: "(site \<times> real list) list \<Rightarrow> site list \<Rightarrow> error + real list list" where
  \<comment> \<open>\<^verbatim>\<open>for at in self.structure: dct["pdos"].append(list(self.pdos[at]))\<close>\<close>
  "pdos_in_site_order d [] = Inr []"
| "pdos_in_site_order d (at_site # rest) =
     (case getitem (map_of d at_site) of Inl e \<Rightarrow> Inl e | Inr dens \<Rightarrow>
     (case pdos_in_site_order d rest of Inl e \<Rightarrow> Inl e | Inr out \<Rightarrow> Inr (dens # out)))"

definition complete_as_dict ::
    "(Structure \<Rightarrow> 'sj) \<Rightarrow> complete_phonon_dos \<Rightarrow> error + 'sj dos_dict" where
  "complete_as_dict structure_as_dict self =
     (let dct = \<lparr>at_module = Some ''pymatgen.phonon.dos'', at_class = Some ''CompletePhononDos'',
                 dict_structure = Some (structure_as_dict (dos_structure self)),
                 dict_frequencies = Some (frequencies self),
                 dict_densities = Some (densities self),
                 dict_pdos = Some []\<rparr> in
      if length (pdos self) > 0 then
        (case pdos_in_site_order (pdos self) (sites (dos_structure self)) of
           Inl e \<Rightarrow> Inl e
         | Inr out \<Rightarrow> Inr (dct\<lparr>dict_pdos := Some out\<rparr>))
      else Inr dct)"

definition complete_from_dict ::
    "('sj \<Rightarrow> error + Structure) \<Rightarrow> ('sj, 'a) dos_dict_scheme \<Rightarrow> error + complete_phonon_dos" where
  "complete_from_dict structure_from_dict dct =
     (case from_dict dct of Inl e \<Rightarrow> Inl e | Inr tdos \<Rightarrow>
     (case getitem (dict_structure dct) of Inl e \<Rightarrow> Inl e | Inr sd \<Rightarrow>
     (case structure_from_dict sd of Inl e \<Rightarrow> Inl e | Inr struct \<Rightarrow>
     (case getitem (dict_pdos dct) of Inl e \<Rightarrow> Inl e | Inr pd \<Rightarrow>
        Inr (CompletePhononDos struct tdos (dict_of_pairs [] (zip (sites struct) pd)))))))"

text \<open>An instance of either class, as \<^verbatim>\<open>+\<close> receives it.\<close>

datatype dos_object = PhononDos_object phonon_dos | CompletePhononDos_object complete_phonon_dos

fun type_name :: "dos_object \<Rightarrow> string" where
  "type_name (PhononDos_object _) = ''PhononDos''"
| "type_name (CompletePhononDos_object _) = ''CompletePhononDos''"

fun attributes :: "dos_object \<Rightarrow> string list" where
  "attributes (PhononDos_object _) = [''frequencies'', ''densities'']"
| "attributes (CompletePhononDos_object _) = [''frequencies'', ''densities'', ''pdos'', ''structure'']"

fun object_add :: "dos_object \<Rightarrow> dos_object \<Rightarrow> error + dos_object" where
  \<comment> \<open>\<^verbatim>\<open>a + b\<close>: both classes share \<^verbatim>\<open>PhononDos.__add__\<close>, which builds a \<^verbatim>\<open>PhononDos\<close>\<close>
  "object_add (PhononDos_object a) (PhononDos_object b) = map_sum id PhononDos_object (dos_add a b)"
| "object_add (PhononDos_object a) (CompletePhononDos_object b) = map_sum id PhononDos_object (dos_add a b)"
| "object_add (CompletePhononDos_object a) (PhononDos_object b) = map_sum id PhononDos_object (dos_add a b)"
| "object_add (CompletePhononDos_object a) (CompletePhononDos_object b) = map_sum id PhononDos_object (dos_add a b)"

section \<open>IsingModel\<close>

record neighbor = site +
  nn_distance :: real

record IsingModel =
  j :: real
  max_radius :: real

definition getattr_spin :: "Species \<Rightarrow> real" where
  \<comment> \<open>\<^verbatim>\<open>getattr(specie, "spin", 0)\<close>\<close>
  "getattr_spin sp = (case spin sp of None \<Rightarrow> 0 | Some v \<Rightarrow> v)"

fun ising_neighbors :: "real \<Rightarrow> real \<Rightarrow> neighbor list \<Rightarrow> npfloat \<Rightarrow> npfloat" where
  \<comment> \<open>the inner loop \<^verbatim>\<open>for nn in nns\<close>\<close>
  "ising_neighbors jj s1 [] energy = energy"
| "ising_neighbors jj s1 (nn # nns) energy =
     ising_neighbors jj s1 nns
       (lift2 (+) energy
          (np_divide (Some (jj * s1 * getattr_spin (specie nn))) (Some ((nn_distance nn) ^ 2))))"

fun ising_sites :: "real \<Rightarrow> site list \<Rightarrow> nat \<Rightarrow> neighbor list list \<Rightarrow> npfloat \<Rightarrow> error + npfloat" where
  \<comment> \<open>the outer loop \<^verbatim>\<open>for idx, nns in enumerate(all_nn)\<close>, from index \<open>idx\<close> on\<close>
  "ising_sites jj ss idx [] energy = Inr energy"
| "ising_sites jj ss idx (nns # rest) energy =
     (if idx < length ss then
        ising_sites jj ss (idx + 1) rest
          (ising_neighbors jj (getattr_spin (specie (ss ! idx))) nns energy)
      else Inl IndexError)"

definition get_energy ::
    "(Structure \<Rightarrow> real \<Rightarrow> neighbor list list) \<Rightarrow> IsingModel \<Rightarrow> Structure \<Rightarrow> error + npfloat" where
  \<comment> \<open>\<open>get_all_neighbors\<close> is the structure's neighbour query, a parameter\<close>
  "get_energy get_all_neighbors self struct =
     (let all_nn = get_all_neighbors struct (max_radius self) in
      ising_sites (j self) (sites struct) 0 all_nn (Some 0))"

section \<open>The data model's own words\<close>

text \<open>
  The zero-frequency index as the data model describes it, the first index whose frequency
  is not negative; the invariant of a PhononDos, one density per frequency; a structure with
  at least one site and positive atom counts, and its number of formula units.
\<close>

definition zero_freq_index :: "real list \<Rightarrow> nat" where
  "zero_freq_index fs = length (takeWhile (\<lambda>f. f < 0) fs)"

definition dos_invariant :: "'a phonon_dos_scheme \<Rightarrow> bool" where
  "dos_invariant d = (length (densities d) = length (frequencies d))"

definition nonempty_structure :: "Structure \<Rightarrow> bool" where
  "nonempty_structure s = (sites s \<noteq> [] \<and> 0 < num_atoms s \<and> 0 < reduced_num_atoms s)"

definition formula_units :: "Structure \<Rightarrow> real" where
  "formula_units s = num_atoms s / reduced_num_atoms s"

definition divided_by_formula_units :: "Structure \<Rightarrow> error + npfloat \<Rightarrow> error + npfloat" where
  \<comment> \<open>a result without a structure, divided by the formula units of \<open>s\<close>; an exception
      stays what it is\<close>
  "divided_by_formula_units s r = map_sum id (map_option (\<lambda>v. v / formula_units s)) r"

definition average_frequency_spacing :: "real list \<Rightarrow> real" where
  \<comment> \<open>the mean of the consecutive frequency differences over the whole axis\<close>
  "average_frequency_spacing fs = sum_list (map2 (-) (tl fs) (butlast fs)) / real (length fs - 1)"

definition pair_interaction_energy :: "real \<Rightarrow> site list \<Rightarrow> neighbor list list \<Rightarrow> real" where
  \<comment> \<open>the sum, over every site index \<open>i\<close> and every entry \<open>nn\<close> of the neighbour list of
      \<open>i\<close>, of \<open>coupling * spin(i) * spin(nn) / distance\<^sup>2\<close>\<close>
  "pair_interaction_energy coupling ss all_nn =
     (\<Sum>(i, nns) \<leftarrow> enumerate 0 all_nn.
        \<Sum>nn \<leftarrow> nns. coupling * getattr_spin (specie (ss ! i)) * getattr_spin (specie nn)
                      / (nn_distance nn) ^ 2)"

section \<open>Example inputs\<close>

definition NaCl2 :: Structure where
  "NaCl2 = \<lparr>sites = [\<lparr>specie = \<lparr>symbol = ''Na'', spin = None\<rparr>, frac_coords = (0, 0, 0)\<rparr>,
                       \<lparr>specie = \<lparr>symbol = ''Na'', spin = None\<rparr>, frac_coords = (1/2, 1/2, 0)\<rparr>,
                       \<lparr>specie = \<lparr>symbol = ''Cl'', spin = None\<rparr>, frac_coords = (1/2, 0, 0)\<rparr>,
                       \<lparr>specie = \<lparr>symbol = ''Cl'', spin = None\<rparr>, frac_coords = (0, 1/2, 0)\<rparr>],
             num_atoms = 4, reduced_num_atoms = 2\<rparr>"

definition Na_site :: site where
  "Na_site = \<lparr>specie = \<lparr>symbol = ''Na'', spin = None\<rparr>, frac_coords = (0, 0, 0)\<rparr>"

definition Cl_site :: site where
  "Cl_site = \<lparr>specie = \<lparr>symbol = ''Cl'', spin = None\<rparr>, frac_coords = (1/2, 1/2, 1/2)\<rparr>"

definition NaCl :: Structure where
  "NaCl = \<lparr>sites = [Na_site, Cl_site], num_atoms = 2, reduced_num_atoms = 2\<rparr>"

definition NaCl_dos :: complete_phonon_dos where
  "NaCl_dos = CompletePhononDos NaCl (PhononDos [0, 1, 2] [3, 5, 7])
                [(Na_site, [1, 2, 3]), (Cl_site, [2, 3, 4])]"

definition Fe_up :: site where
  "Fe_up = \<lparr>specie = \<lparr>symbol = ''Fe'', spin = Some 5\<rparr>, frac_coords = (0, 0, 0)\<rparr>"

definition Fe_down :: site where
  "Fe_down = \<lparr>specie = \<lparr>symbol = ''Fe'', spin = Some (-5)\<rparr>, frac_coords = (1/2, 1/2, 1/2)\<rparr>"

definition O_site :: site where
  "O_site = \<lparr>specie = \<lparr>symbol = ''O'', spin = None\<rparr>, frac_coords = (1/2, 0, 0)\<rparr>"

definition Fe2O :: Structure where
  "Fe2O = \<lparr>sites = [Fe_up, Fe_down, O_site], num_atoms = 3, reduced_num_atoms = 3\<rparr>"

definition as_neighbor :: "site \<Rightarrow> real \<Rightarrow> neighbor" where
  "as_neighbor s d = \<lparr>specie = specie s, frac_coords = frac_coords s, nn_distance = d\<rparr>"

definition Fe2O_neighbors :: "Structure \<Rightarrow> real \<Rightarrow> neighbor list list" where
  \<comment> \<open>each pair of sites in both directions: Fe-Fe at distance 2, Fe-O at distance 1\<close>
  "Fe2O_neighbors s r =
     [[as_neighbor Fe_down 2, as_neighbor O_site 1],
      [as_neighbor Fe_up 2, as_neighbor O_site 1],
      [as_neighbor Fe_up 1, as_neighbor Fe_down 1]]"

definition constant_filter :: "real list \<Rightarrow> real \<Rightarrow> real list" where
  "constant_filter input sd = input"

section \<open>Binary search\<close>

lemma bsearch_left_range:
  "min_idx \<le> max_idx \<Longrightarrow>
     min_idx \<le> bsearch_left arr key min_idx max_idx \<and> bsearch_left arr key min_idx max_idx \<le> max_idx"
proof (induction arr key min_idx max_idx rule: bsearch_left.induct)
  case (1 arr key min_idx max_idx)
  show ?case
  proof (cases "min_idx < max_idx")
    case False
    with "1.prems" show ?thesis by (simp add: bsearch_left.simps)
  next
    case True
    let ?mid = "min_idx + (max_idx - min_idx) div 2"
    have mid: "min_idx \<le> ?mid" "?mid < max_idx" using True by auto
    show ?thesis
    proof (cases "arr ! ?mid < key")
      case lt: True
      have "?mid + 1 \<le> max_idx" using mid by simp
      from "1.IH"(1)[OF True refl lt this] True lt mid show ?thesis
        by (subst (1 2) bsearch_left.simps) (simp add: Let_def)
    next
      case ge: False
      from "1.IH"(2)[OF True refl ge mid(1)] True ge mid show ?thesis
        by (subst (1 2) bsearch_left.simps) (simp add: Let_def)
    qed
  qed
qed

lemma bsearch_left_partition:
  "sorted arr \<Longrightarrow> min_idx \<le> max_idx \<Longrightarrow> max_idx \<le> length arr \<Longrightarrow>
   (\<forall>j < min_idx. arr ! j < key) \<Longrightarrow>
   (\<forall>j. max_idx \<le> j \<and> j < length arr \<longrightarrow> key \<le> arr ! j) \<Longrightarrow>
     (\<forall>j < bsearch_left arr key min_idx max_idx. arr ! j < key) \<and>
     (\<forall>j. bsearch_left arr key min_idx max_idx \<le> j \<and> j < length arr \<longrightarrow> key \<le> arr ! j)"
proof (induction arr key min_idx max_idx rule: bsearch_left.induct)
  case (1 arr key min_idx max_idx)
  show ?case
  proof (cases "min_idx < max_idx")
    case False
    with "1.prems" have "min_idx = max_idx" by simp
    with "1.prems" show ?thesis by (simp add: bsearch_left.simps)
  next
    case True
    let ?mid = "min_idx + (max_idx - min_idx) div 2"
    have mid: "min_idx \<le> ?mid" "?mid < max_idx" using True by auto
    then have midlen: "?mid < length arr" using "1.prems"(3) by simp
    show ?thesis
    proof (cases "arr ! ?mid < key")
      case lt: True
      have below: "\<forall>j < ?mid + 1. arr ! j < key"
      proof (intro allI impI)
        fix j assume "j < ?mid + 1"
        then have "j \<le> ?mid" by simp
        then have "arr ! j \<le> arr ! ?mid"
          using \<open>sorted arr\<close> midlen by (simp add: sorted_iff_nth_mono)
        with lt show "arr ! j < key" by simp
      qed
      have "?mid + 1 \<le> max_idx" using mid by simp
      from "1.IH"(1)[OF True refl lt "1.prems"(1) this "1.prems"(3) below "1.prems"(5)] True lt
      show ?thesis by (subst (1 2) bsearch_left.simps) (simp add: Let_def)
    next
      case ge: False
      have above: "\<forall>j. ?mid \<le> j \<and> j < length arr \<longrightarrow> key \<le> arr ! j"
      proof (intro allI impI)
        fix j assume "?mid \<le> j \<and> j < length arr"
        then have "arr ! ?mid \<le> arr ! j"
          using \<open>sorted arr\<close> by (simp add: sorted_iff_nth_mono)
        with ge show "key \<le> arr ! j" by simp
      qed
      have "?mid \<le> length arr" using midlen by simp
      from "1.IH"(2)[OF True refl ge "1.prems"(1) mid(1) this "1.prems"(4) above] True ge
      show ?thesis by (subst (1 2) bsearch_left.simps) (simp add: Let_def)
    qed
  qed
qed

lemma bsearch_left_all_less:
  "min_idx \<le> max_idx \<Longrightarrow> (\<forall>j < max_idx. arr ! j < key) \<Longrightarrow>
     bsearch_left arr key min_idx max_idx = max_idx"
proof (induction arr key min_idx max_idx rule: bsearch_left.induct)
  case (1 arr key min_idx max_idx)
  show ?case
  proof (cases "min_idx < max_idx")
    case False
    with "1.prems" show ?thesis by (simp add: bsearch_left.simps)
  next
    case True
    let ?mid = "min_idx + (max_idx - min_idx) div 2"
    have mid: "min_idx \<le> ?mid" "?mid < max_idx" using True by auto
    then have lt: "arr ! ?mid < key" using "1.prems"(2) by blast
    have "?mid + 1 \<le> max_idx" using mid by simp
    from "1.IH"(1)[OF True refl lt this "1.prems"(2)] True lt show ?thesis
      by (subst bsearch_left.simps) (simp add: Let_def)
  qed
qed

lemma searchsorted_sorted:
  assumes "sorted a"
  shows "searchsorted a v \<le> length a"
    and "\<forall>k < searchsorted a v. a ! k < v"
    and "\<forall>k. searchsorted a v \<le> k \<and> k < length a \<longrightarrow> v \<le> a ! k"
proof -
  show "searchsorted a v \<le> length a"
    using bsearch_left_range [of 0 "length a" a v] by (simp add: searchsorted_def)
  have "(\<forall>k < bsearch_left a v 0 (length a). a ! k < v) \<and>
        (\<forall>k. bsearch_left a v 0 (length a) \<le> k \<and> k < length a \<longrightarrow> v \<le> a ! k)"
    by (rule bsearch_left_partition [OF assms]) simp_all
  then show "\<forall>k < searchsorted a v. a ! k < v"
    and "\<forall>k. searchsorted a v \<le> k \<and> k < length a \<longrightarrow> v \<le> a ! k"
    by (simp_all add: searchsorted_def)
qed

lemma searchsorted_takeWhile:
  assumes "sorted a"
  shows "searchsorted a v = length (takeWhile (\<lambda>x. x < v) a)"
proof -
  let ?r = "searchsorted a v" and ?n = "length (takeWhile (\<lambda>x. x < v) a)"
  note ss = searchsorted_sorted [OF assms, of v]
  have le: "?r \<le> ?n"
    using ss(1,2) by (intro length_takeWhile_less_P_nth) auto
  have "\<not> ?r < ?n"
  proof
    assume lt: "?r < ?n"
    then have "takeWhile (\<lambda>x. x < v) a ! ?r \<in> set (takeWhile (\<lambda>x. x < v) a)"
      by simp
    then have "takeWhile (\<lambda>x. x < v) a ! ?r < v"
      by (rule set_takeWhileD [THEN conjunct2])
    then have "a ! ?r < v" using lt by (simp add: takeWhile_nth)
    moreover have "?r < length a"
      using lt length_takeWhile_le [of "\<lambda>x. x < v" a] by simp
    ultimately show False using ss(3) by force
  qed
  with le show ?thesis by simp
qed

lemma searchsorted_all_less:
  "\<forall>x \<in> set a. x < v \<Longrightarrow> searchsorted a v = length a"
  unfolding searchsorted_def by (rule bsearch_left_all_less) simp_all

lemma np_sum_Some_aux: "foldl (lift2 (+)) (Some a) (map Some zs) = Some (a + sum_list zs)"
  by (induction zs arbitrary: a) (simp_all add: lift2_def add.assoc)

lemma np_sum_Some: "np_sum (map Some zs) = Some (sum_list zs)"
  by (simp add: np_sum_def np_sum_Some_aux)

lemma length_np_diff: "length (np_diff x) = length x - 1"
  by (simp add: np_diff_def)

lemma trapezoid_sum:
  "length y = length x \<Longrightarrow>
     sum_list (map2 (\<lambda>d s. d * s / 2) (np_diff x) (map2 (+) (tl y) (butlast y))) = trapezoid x y"
proof (induction x y rule: trapezoid.induct)
  case (1 x0 x1 xs y0 y1 ys)
  then have "length (y1 # ys) = length (x1 # xs)" by simp
  from "1.IH" [OF this] show ?case by (simp add: np_diff_def)
qed (simp_all add: np_diff_def)

lemma np_trapz_Some:
  assumes "length y = length x"
  shows "np_trapz (map Some y) x = Inr (Some (trapezoid x y))"
proof -
  let ?s = "map2 (+) (tl y) (butlast y)"
  have s: "map2 (lift2 (+)) (tl (map Some y)) (butlast (map Some y)) = map Some ?s"
    by (simp add: zip_map_map lift2_def comp_def case_prod_unfold flip: map_tl map_butlast)
  have len: "length (np_diff x) = length (map Some ?s)"
    using assms by (simp add: np_diff_def)
  have p: "broadcast2 (\<lambda>d s. lift2 (*) (Some d) s) (np_diff x) (map Some ?s)
             = Inr (map Some (map2 (*) (np_diff x) ?s))"
    using len by (simp add: broadcast2_def zip_map2 lift2_def comp_def case_prod_unfold del: length_map)
  have "np_trapz (map Some y) x
          = Inr (np_sum (map Some (map2 (\<lambda>d s. d * s / 2) (np_diff x) ?s)))"
    unfolding np_trapz_def s p by (simp add: lift2_def comp_def case_prod_unfold)
  also have "\<dots> = Inr (Some (trapezoid x y))"
    unfolding np_sum_Some trapezoid_sum [OF assms] ..
  finally show ?thesis .
qed

lemma zero_freq_index_less:
  "\<exists>f \<in> set fs. 0 \<le> f \<Longrightarrow> zero_freq_index fs < length fs"
proof (rule ccontr)
  assume ex: "\<exists>f \<in> set fs. 0 \<le> f" and "\<not> zero_freq_index fs < length fs"
  then have "length (takeWhile (\<lambda>f. f < 0) fs) = length fs"
    using length_takeWhile_le [of "\<lambda>f. f < 0" fs] by (simp add: zero_freq_index_def)
  then have "takeWhile (\<lambda>f. f < 0) fs = fs"
    by (metis takeWhile_eq_take take_all order_refl)
  then have "\<forall>f \<in> set fs. f < 0" by (simp add: takeWhile_eq_all_conv)
  with ex show False by force
qed

lemma zero_freq_index_first:
  assumes "\<exists>f \<in> set fs. 0 \<le> f"
  shows "0 \<le> fs ! zero_freq_index fs" and "\<forall>k < zero_freq_index fs. fs ! k < 0"
proof -
  have "\<not> fs ! zero_freq_index fs < 0"
    unfolding zero_freq_index_def
    using zero_freq_index_less [OF assms]
    by (intro nth_length_takeWhile) (simp add: zero_freq_index_def)
  then show "0 \<le> fs ! zero_freq_index fs" by simp
  show "\<forall>k < zero_freq_index fs. fs ! k < 0"
  proof (intro allI impI)
    fix k assume k: "k < zero_freq_index fs"
    then have "takeWhile (\<lambda>f. f < 0) fs ! k \<in> set (takeWhile (\<lambda>f. f < 0) fs)"
      by (simp add: zero_freq_index_def)
    then have "takeWhile (\<lambda>f. f < 0) fs ! k < 0"
      by (rule set_takeWhileD [THEN conjunct2])
    then show "fs ! k < 0" using k by (simp add: takeWhile_nth zero_freq_index_def)
  qed
qed

lemma ind_zero_freq_sorted:
  assumes "sorted (frequencies d)" and "\<exists>f \<in> set (frequencies d). 0 \<le> f"
  shows "ind_zero_freq d = Inr (zero_freq_index (frequencies d))"
  using zero_freq_index_less [OF assms(2)] searchsorted_takeWhile [OF assms(1), of 0]
  by (simp add: ind_zero_freq_def zero_freq_index_def Let_def)

lemma ind_zero_freq_all_negative:
  assumes "\<forall>f \<in> set (frequencies d). f < 0"
  shows "ind_zero_freq d = Inl NoPositiveFrequencies"
  using searchsorted_all_less [OF assms] by (simp add: ind_zero_freq_def Let_def)

lemma zero_point_energy_raw:
  assumes "sorted (frequencies d)" and "\<exists>f \<in> set (frequencies d). 0 \<le> f"
    and "length (densities d) = length (frequencies d)"
  shows "zero_point_energy d None =
     Inr (Some (0.5 * trapezoid (drop (zero_freq_index (frequencies d)) (frequencies d))
                    (map2 (*) (drop (zero_freq_index (frequencies d)) (frequencies d))
                              (drop (zero_freq_index (frequencies d)) (densities d)))
                * THZ_TO_J * Avogadro))"
proof -
  let ?i = "zero_freq_index (frequencies d)"
  let ?fs = "drop ?i (frequencies d)" and ?ds = "drop ?i (densities d)"
  have pf: "positive_frequencies d = Inr ?fs" and pd: "positive_densities d = Inr ?ds"
    by (simp_all add: positive_frequencies_def positive_densities_def
          ind_zero_freq_sorted [OF assms(1,2)])
  have len: "length ?fs = length ?ds" using assms(3) by simp
  have y: "broadcast2 (\<lambda>f d. Some (f * d)) ?fs ?ds = Inr (map Some (map2 (*) ?fs ?ds))"
    using len by (simp add: broadcast2_def comp_def case_prod_unfold del: length_drop)
  have tr: "np_trapz (map Some (map2 (*) ?fs ?ds)) ?fs = Inr (Some (trapezoid ?fs (map2 (*) ?fs ?ds)))"
    by (rule np_trapz_Some) (simp add: assms(3))
  show ?thesis
    unfolding zero_point_energy_def pf pd y tr sum.case
    by (simp add: per_formula_unit_def lift2_def)
qed

text \<open>
  C1. For a PhononDos with ascending frequencies, one of them at least 0, and one density per
  frequency, \<open>zero_point_energy\<close> without a structure is
  \<open>0.5 * trapezoid * THZ_TO_J * Avogadro\<close>, the trapezoidal rule being taken for \<open>f * rho(f)\<close>
  over the frequencies and densities from the zero-frequency index on. For frequencies
  \<open>[-1, 0, 1, 2]\<close> and densities \<open>[0, 0, 2, 2]\<close> these are \<open>[0, 1, 2]\<close> and \<open>[0, 2, 2]\<close>.
\<close>

theorem zero_point_energy_quadrature:
  "(sorted (frequencies d) \<and> (\<exists>f \<in> set (frequencies d). 0 \<le> f) \<and> dos_invariant d \<longrightarrow>
      zero_point_energy d None =
        Inr (Some (0.5 * trapezoid (drop (zero_freq_index (frequencies d)) (frequencies d))
                       (map2 (*) (drop (zero_freq_index (frequencies d)) (frequencies d))
                                 (drop (zero_freq_index (frequencies d)) (densities d)))
                   * THZ_TO_J * Avogadro)))
   \<and> positive_frequencies (PhononDos [-1, 0, 1, 2] [0, 0, 2, 2]) = Inr [0, 1, 2]
   \<and> positive_densities (PhononDos [-1, 0, 1, 2] [0, 0, 2, 2]) = Inr [0, 2, 2]"
proof (intro conjI impI)
  assume "sorted (frequencies d) \<and> (\<exists>f \<in> set (frequencies d). 0 \<le> f) \<and> dos_invariant d"
  then show "zero_point_energy d None =
        Inr (Some (0.5 * trapezoid (drop (zero_freq_index (frequencies d)) (frequencies d))
                       (map2 (*) (drop (zero_freq_index (frequencies d)) (frequencies d))
                                 (drop (zero_freq_index (frequencies d)) (densities d)))
                   * THZ_TO_J * Avogadro))"
    by (intro zero_point_energy_raw) (simp_all add: dos_invariant_def)
next
  have "sorted [-1, 0, 1, 2 :: real]" by simp
  from searchsorted_takeWhile [OF this, of 0]
  have i: "searchsorted [-1, 0, 1, 2] 0 = 1" by simp
  from i show "positive_frequencies (PhononDos [-1, 0, 1, 2] [0, 0, 2, 2]) = Inr [0, 1, 2]"
    by (simp add: positive_frequencies_def ind_zero_freq_def PhononDos_def)
  from i show "positive_densities (PhononDos [-1, 0, 1, 2] [0, 0, 2, 2]) = Inr [0, 2, 2]"
    by (simp add: positive_densities_def ind_zero_freq_def PhononDos_def)
qed

theorem zero_point_energy_quadrature_witness:
  "sorted (frequencies (PhononDos [-1, 0, 1, 2] [0, 0, 2, 2]))
   \<and> (\<exists>f \<in> set (frequencies (PhononDos [-1, 0, 1, 2] [0, 0, 2, 2])). 0 \<le> f)
   \<and> dos_invariant (PhononDos [-1, 0, 1, 2] [0, 0, 2, 2])
   \<and> zero_point_energy (PhononDos [-1, 0, 1, 2] [0, 0, 2, 2]) None
        = Inr (Some (0.5 * trapezoid [0, 1, 2] [0, 2, 4] * THZ_TO_J * Avogadro))
   \<and> trapezoid [0, 1, 2] [0, 2, 4] = 4"
  using zero_point_energy_quadrature [of "PhononDos [-1, 0, 1, 2] [0, 0, 2, 2]"]
  by (simp add: PhononDos_def dos_invariant_def zero_freq_index_def)

lemma thermo_no_positive:
  assumes "\<forall>f \<in> set (frequencies d). f < 0"
  shows "positive_frequencies d = Inl NoPositiveFrequencies"
    and "positive_densities d = Inl NoPositiveFrequencies"
    and "zero_point_energy d st = Inl NoPositiveFrequencies"
    and "t \<noteq> 0 \<Longrightarrow> cv d t st = Inl NoPositiveFrequencies"
    and "t \<noteq> 0 \<Longrightarrow> entropy d t st = Inl NoPositiveFrequencies"
    and "internal_energy d t st = Inl NoPositiveFrequencies"
    and "helmholtz_free_energy d t st = Inl NoPositiveFrequencies"
proof -
  show pf: "positive_frequencies d = Inl NoPositiveFrequencies"
    by (simp add: positive_frequencies_def ind_zero_freq_all_negative [OF assms])
  show "positive_densities d = Inl NoPositiveFrequencies"
    by (simp add: positive_densities_def ind_zero_freq_all_negative [OF assms])
  show z: "zero_point_energy d st = Inl NoPositiveFrequencies"
    by (simp add: zero_point_energy_def pf)
  show "t \<noteq> 0 \<Longrightarrow> cv d t st = Inl NoPositiveFrequencies"
    by (simp add: cv_def pf)
  show "t \<noteq> 0 \<Longrightarrow> entropy d t st = Inl NoPositiveFrequencies"
    by (simp add: entropy_def pf)
  show "internal_energy d t st = Inl NoPositiveFrequencies"
    by (simp add: internal_energy_def pf z)
  show "helmholtz_free_energy d t st = Inl NoPositiveFrequencies"
    by (simp add: helmholtz_free_energy_def pf z)
qed

text \<open>
  C6. With ascending frequencies of which one is at least 0, \<open>ind_zero_freq\<close> is the first
  index whose frequency is at least 0, and the positive frequencies and densities are the
  arrays from that index on. When every frequency is negative, \<open>ind_zero_freq\<close>, both
  positive arrays, \<open>zero_point_energy\<close> and, at a temperature other than 0, the four
  temperature-dependent methods raise \<open>NoPositiveFrequencies\<close>.
\<close>

theorem no_positive_frequencies:
  "(sorted (frequencies d) \<and> (\<exists>f \<in> set (frequencies d). 0 \<le> f) \<longrightarrow>
      (\<exists>i. ind_zero_freq d = Inr i \<and> i < length (frequencies d)
          \<and> 0 \<le> frequencies d ! i \<and> (\<forall>k < i. frequencies d ! k < 0)
          \<and> positive_frequencies d = Inr (drop i (frequencies d))
          \<and> positive_densities d = Inr (drop i (densities d))))
   \<and> ((\<forall>f \<in> set (frequencies d). f < 0) \<longrightarrow>
        ind_zero_freq d = Inl NoPositiveFrequencies
      \<and> positive_frequencies d = Inl NoPositiveFrequencies
      \<and> positive_densities d = Inl NoPositiveFrequencies
      \<and> zero_point_energy d st = Inl NoPositiveFrequencies
      \<and> (t \<noteq> 0 \<longrightarrow> cv d t st = Inl NoPositiveFrequencies
                  \<and> entropy d t st = Inl NoPositiveFrequencies
                  \<and> internal_energy d t st = Inl NoPositiveFrequencies
                  \<and> helmholtz_free_energy d t st = Inl NoPositiveFrequencies))"
proof (intro conjI impI)
  assume a: "sorted (frequencies d) \<and> (\<exists>f \<in> set (frequencies d). 0 \<le> f)"
  let ?i = "zero_freq_index (frequencies d)"
  from a have i: "ind_zero_freq d = Inr ?i" by (simp add: ind_zero_freq_sorted)
  from a have "?i < length (frequencies d)" by (simp add: zero_freq_index_less)
  moreover from a have "0 \<le> frequencies d ! ?i" "\<forall>k < ?i. frequencies d ! k < 0"
    using zero_freq_index_first [of "frequencies d"] by simp_all
  moreover have "positive_frequencies d = Inr (drop ?i (frequencies d))"
    "positive_densities d = Inr (drop ?i (densities d))"
    by (simp_all add: positive_frequencies_def positive_densities_def i)
  ultimately show "\<exists>i. ind_zero_freq d = Inr i \<and> i < length (frequencies d)
          \<and> 0 \<le> frequencies d ! i \<and> (\<forall>k < i. frequencies d ! k < 0)
          \<and> positive_frequencies d = Inr (drop i (frequencies d))
          \<and> positive_densities d = Inr (drop i (densities d))"
    using i by blast
qed (simp_all add: ind_zero_freq_all_negative thermo_no_positive)

theorem no_positive_frequencies_witness:
  "sorted (frequencies (PhononDos [-1, 0, 1] [3, 4, 5]))
   \<and> (\<exists>f \<in> set (frequencies (PhononDos [-1, 0, 1] [3, 4, 5])). 0 \<le> f)
   \<and> ind_zero_freq (PhononDos [-1, 0, 1] [3, 4, 5]) = Inr 1
   \<and> positive_frequencies (PhononDos [-1, 0, 1] [3, 4, 5]) = Inr [0, 1]
   \<and> positive_densities (PhononDos [-1, 0, 1] [3, 4, 5]) = Inr [4, 5]
   \<and> list_all (\<lambda>f. f < 0) (frequencies (PhononDos [-2, -1] [3, 4]))
   \<and> (300::real) \<noteq> 0
   \<and> zero_point_energy (PhononDos [-2, -1] [3, 4]) None = Inl NoPositiveFrequencies
   \<and> cv (PhononDos [-2, -1] [3, 4]) 300 None = Inl NoPositiveFrequencies
   \<and> entropy (PhononDos [-2, -1] [3, 4]) 300 None = Inl NoPositiveFrequencies
   \<and> internal_energy (PhononDos [-2, -1] [3, 4]) 300 None = Inl NoPositiveFrequencies
   \<and> helmholtz_free_energy (PhononDos [-2, -1] [3, 4]) 300 None = Inl NoPositiveFrequencies"
proof -
  have s: "sorted (frequencies (PhononDos [-1, 0, 1] [3, 4, 5]))
       \<and> (\<exists>f \<in> set (frequencies (PhononDos [-1, 0, 1] [3, 4, 5])). 0 \<le> f)"
    by (simp add: PhononDos_def)
  have n: "\<forall>f \<in> set (frequencies (PhononDos [-2, -1] [3, 4])). f < 0"
    by (simp add: PhononDos_def)
  from no_positive_frequencies [of "PhononDos [-1, 0, 1] [3, 4, 5]" None 300] s
  obtain i where i: "ind_zero_freq (PhononDos [-1, 0, 1] [3, 4, 5]) = Inr i"
      "i < 3" "0 \<le> [-1, 0, 1 :: real] ! i" "\<forall>k < i. [-1, 0, 1 :: real] ! k < 0"
      "positive_frequencies (PhononDos [-1, 0, 1] [3, 4, 5]) = Inr (drop i [-1, 0, 1])"
      "positive_densities (PhononDos [-1, 0, 1] [3, 4, 5]) = Inr (drop i [3, 4, 5])"
    by (auto simp: PhononDos_def)
  have "i = 1"
  proof -
    have "i \<noteq> 0"
    proof
      assume "i = 0"
      with i(3) show False by simp
    qed
    moreover have "\<not> 1 < i" using i(4) by (auto dest!: spec [of _ 1])
    ultimately show ?thesis by simp
  qed
  with i s n no_positive_frequencies [of "PhononDos [-2, -1] [3, 4]" None 300]
  show ?thesis by (simp add: list_all_iff)
qed

lemma per_formula_unit_None: "per_formula_unit v None = Inr v"
  by (simp add: per_formula_unit_def)

lemma per_formula_unit_Some:
  "nonempty_structure s \<Longrightarrow>
     per_formula_unit v (Some s) = Inr (map_option (\<lambda>x. x / formula_units s) v)"
  by (cases v) (simp_all add: per_formula_unit_def nonempty_structure_def formula_units_def np_divide_def)

lemma zero_point_energy_per_formula_unit:
  "nonempty_structure s \<Longrightarrow>
     zero_point_energy d (Some s) = divided_by_formula_units s (zero_point_energy d None)"
  by (simp add: zero_point_energy_def divided_by_formula_units_def per_formula_unit_None
        per_formula_unit_Some split: sum.splits)

text \<open>
  C2. At temperature 0 and for every structure argument, \<open>cv\<close> and \<open>entropy\<close> return 0, and
  \<open>internal_energy\<close> and \<open>helmholtz_free_energy\<close> return what \<open>zero_point_energy\<close> returns
  for the same structure argument. The integrand is not evaluated: the equations hold for
  every instance.
\<close>

theorem zero_temperature_limits:
  "cv d 0 st = Inr (Some 0)
   \<and> entropy d 0 st = Inr (Some 0)
   \<and> internal_energy d 0 st = zero_point_energy d st
   \<and> helmholtz_free_energy d 0 st = zero_point_energy d st"
  by (simp add: cv_def entropy_def internal_energy_def helmholtz_free_energy_def)

theorem zero_temperature_limits_witness:
  "cv (PhononDos [-1, 0, 1, 2] [0, 0, 2, 2]) 0 None = Inr (Some 0)
   \<and> entropy (PhononDos [-1, 0, 1, 2] [0, 0, 2, 2]) 0 None = Inr (Some 0)
   \<and> internal_energy (PhononDos [-1, 0, 1, 2] [0, 0, 2, 2]) 0 None
        = zero_point_energy (PhononDos [-1, 0, 1, 2] [0, 0, 2, 2]) None
   \<and> helmholtz_free_energy (PhononDos [-1, 0, 1, 2] [0, 0, 2, 2]) 0 None
        = zero_point_energy (PhononDos [-1, 0, 1, 2] [0, 0, 2, 2]) None"
  using zero_temperature_limits [of "PhononDos [-1, 0, 1, 2] [0, 0, 2, 2]" None] by blast

text \<open>
  C3. For a structure with at least one site and positive atom counts, each of the five
  methods called with the structure returns the value it returns without a structure divided
  by \<open>formula_units\<close>, the atom count of the composition over the atom count of the reduced
  composition. Without a structure the value is returned as it is.
\<close>

theorem per_mole_of_formula_units:
  "(nonempty_structure s \<longrightarrow>
        cv d t (Some s) = divided_by_formula_units s (cv d t None)
      \<and> entropy d t (Some s) = divided_by_formula_units s (entropy d t None)
      \<and> internal_energy d t (Some s) = divided_by_formula_units s (internal_energy d t None)
      \<and> helmholtz_free_energy d t (Some s)
          = divided_by_formula_units s (helmholtz_free_energy d t None)
      \<and> zero_point_energy d (Some s) = divided_by_formula_units s (zero_point_energy d None))
   \<and> per_formula_unit v None = Inr v"
proof (intro conjI impI)
  assume s: "nonempty_structure s"
  note pfu = per_formula_unit_None per_formula_unit_Some [OF s]
  show z: "zero_point_energy d (Some s) = divided_by_formula_units s (zero_point_energy d None)"
    by (rule zero_point_energy_per_formula_unit [OF s])
  show "cv d t (Some s) = divided_by_formula_units s (cv d t None)"
    by (simp add: cv_def divided_by_formula_units_def pfu Let_def split: sum.splits)
  show "entropy d t (Some s) = divided_by_formula_units s (entropy d t None)"
    by (simp add: entropy_def divided_by_formula_units_def pfu Let_def split: sum.splits)
  show "internal_energy d t (Some s) = divided_by_formula_units s (internal_energy d t None)"
  proof (cases "t = 0")
    case True
    then show ?thesis by (simp add: internal_energy_def z)
  next
    case False
    then show ?thesis
      by (simp add: internal_energy_def divided_by_formula_units_def pfu Let_def split: sum.splits)
  qed
  show "helmholtz_free_energy d t (Some s)
          = divided_by_formula_units s (helmholtz_free_energy d t None)"
  proof (cases "t = 0")
    case True
    then show ?thesis by (simp add: helmholtz_free_energy_def z)
  next
    case False
    then show ?thesis
      by (simp add: helmholtz_free_energy_def divided_by_formula_units_def pfu Let_def
            split: sum.splits)
  qed
qed (rule per_formula_unit_None)

theorem per_mole_of_formula_units_witness:
  "nonempty_structure NaCl2
   \<and> formula_units NaCl2 = 2
   \<and> zero_point_energy (PhononDos [-1, 0, 1, 2] [0, 0, 2, 2]) None = Inr (Some (2 * THZ_TO_J * Avogadro))
   \<and> zero_point_energy (PhononDos [-1, 0, 1, 2] [0, 0, 2, 2]) (Some NaCl2) = Inr (Some (THZ_TO_J * Avogadro))
   \<and> cv (PhononDos [-1, 0, 1, 2] [0, 0, 2, 2]) 300 (Some NaCl2)
        = divided_by_formula_units NaCl2 (cv (PhononDos [-1, 0, 1, 2] [0, 0, 2, 2]) 300 None)"
proof -
  have n: "nonempty_structure NaCl2" and f: "formula_units NaCl2 = 2"
    by (simp_all add: nonempty_structure_def formula_units_def NaCl2_def)
  have z: "zero_point_energy (PhononDos [-1, 0, 1, 2] [0, 0, 2, 2]) None = Inr (Some (2 * THZ_TO_J * Avogadro))"
    using zero_point_energy_raw [of "PhononDos [-1, 0, 1, 2] [0, 0, 2, 2]"]
    by (simp add: PhononDos_def zero_freq_index_def)
  from per_mole_of_formula_units [of NaCl2 "PhononDos [-1, 0, 1, 2] [0, 0, 2, 2]" 300] n f z
  show ?thesis by (simp add: divided_by_formula_units_def)
qed

lemma list_all_equal_self: "list_all id (map2 (=) xs xs)"
  by (induction xs) simp_all

lemma map2_add_commute: "map2 (+) xs ys = map2 (+) ys (xs :: real list)"
proof (induction xs arbitrary: ys)
  case Nil
  then show ?case by simp
next
  case (Cons x xs)
  then show ?case by (cases ys) (simp_all add: add.commute)
qed

lemma list_all_equal_iff:
  "length xs = length ys \<Longrightarrow> list_all id (map2 (=) xs ys) \<longleftrightarrow> xs = ys"
  by (induction xs ys rule: list_induct2) auto

lemma dos_add_equal_axes:
  assumes "frequencies a = frequencies b" and "dos_invariant a" and "dos_invariant b"
  shows "dos_add a b = Inr (PhononDos (frequencies a) (map2 (+) (densities a) (densities b)))"
proof -
  have eq: "broadcast2 (=) (frequencies a) (frequencies b)
              = Inr (map2 (=) (frequencies a) (frequencies a))"
    using assms(1) by (simp add: broadcast2_def)
  have "length (densities a) = length (densities b)"
    using assms by (simp add: dos_invariant_def)
  then have sum: "broadcast2 (+) (densities a) (densities b)
              = Inr (map2 (+) (densities a) (densities b))"
    by (simp add: broadcast2_def)
  show ?thesis
    unfolding dos_add_def eq sum sum.case using list_all_equal_self [of "frequencies a"] by simp
qed

lemma dos_add_same_length_mismatch:
  assumes "length (frequencies a) = length (frequencies b)" and "frequencies a \<noteq> frequencies b"
  shows "dos_add a b = Inl IncompatibleSpectra"
  using assms list_all_equal_iff [OF assms(1)] by (simp add: dos_add_def broadcast2_def)

lemma dos_add_no_broadcast:
  assumes "length (frequencies a) \<noteq> length (frequencies b)"
    and "length (frequencies a) \<noteq> 1" and "length (frequencies b) \<noteq> 1"
  shows "dos_add a b = Inl BroadcastError"
  using assms by (simp add: dos_add_def broadcast2_def)

lemma dos_add_mismatch_raises:
  assumes "frequencies a \<noteq> frequencies b"
    and "length (frequencies a) = length (frequencies b)
         \<or> (length (frequencies a) \<noteq> 1 \<and> length (frequencies b) \<noteq> 1)"
  shows "\<exists>e. dos_add a b = Inl e \<and> is_ValueError e"
proof (cases "length (frequencies a) = length (frequencies b)")
  case True
  with assms(1) have "dos_add a b = Inl IncompatibleSpectra"
    by (rule dos_add_same_length_mismatch [rotated])
  then show ?thesis by simp
next
  case False
  with assms(2) have "dos_add a b = Inl BroadcastError"
    by (intro dos_add_no_broadcast) simp_all
  then show ?thesis by simp
qed

text \<open>
  C4. For two PhononDos with equal frequency arrays, each with one density per frequency,
  \<open>a + b\<close> is a new PhononDos with the frequencies of \<open>a\<close> and the elementwise sum of the
  densities; \<open>b + a\<close> is the same, and so is the reflected addition of either operand.
\<close>

theorem add_equal_axes:
  "frequencies a = frequencies b \<and> dos_invariant a \<and> dos_invariant b \<longrightarrow>
       dos_add a b = Inr (PhononDos (frequencies a) (map2 (+) (densities a) (densities b)))
     \<and> dos_add b a = dos_add a b
     \<and> dos_radd b a = dos_add a b
     \<and> dos_radd a b = dos_add a b"
proof (intro impI)
  assume h: "frequencies a = frequencies b \<and> dos_invariant a \<and> dos_invariant b"
  then have ab: "dos_add a b = Inr (PhononDos (frequencies a) (map2 (+) (densities a) (densities b)))"
    by (simp add: dos_add_equal_axes)
  from h have "dos_add b a = Inr (PhononDos (frequencies b) (map2 (+) (densities b) (densities a)))"
    by (simp add: dos_add_equal_axes)
  with h have ba: "dos_add b a = dos_add a b"
    using map2_add_commute [of "densities b" "densities a"] by (simp add: ab)
  from ab ba show "dos_add a b = Inr (PhononDos (frequencies a) (map2 (+) (densities a) (densities b)))
     \<and> dos_add b a = dos_add a b \<and> dos_radd b a = dos_add a b \<and> dos_radd a b = dos_add a b"
    by (simp add: dos_radd_def)
qed

theorem add_equal_axes_witness:
  "frequencies (PhononDos [0, 1, 2] [1, 2, 3]) = frequencies (PhononDos [0, 1, 2] [10, 20, 30])
   \<and> dos_invariant (PhononDos [0, 1, 2] [1, 2, 3])
   \<and> dos_invariant (PhononDos [0, 1, 2] [10, 20, 30])
   \<and> dos_add (PhononDos [0, 1, 2] [1, 2, 3]) (PhononDos [0, 1, 2] [10, 20, 30])
        = Inr (PhononDos [0, 1, 2] [11, 22, 33])
   \<and> dos_add (PhononDos [0, 1, 2] [10, 20, 30]) (PhononDos [0, 1, 2] [1, 2, 3])
        = Inr (PhononDos [0, 1, 2] [11, 22, 33])
   \<and> dos_radd (PhononDos [0, 1, 2] [10, 20, 30]) (PhononDos [0, 1, 2] [1, 2, 3])
        = Inr (PhononDos [0, 1, 2] [11, 22, 33])"
  using add_equal_axes [of "PhononDos [0, 1, 2] [1, 2, 3]" "PhononDos [0, 1, 2] [10, 20, 30]"]
  by (simp add: PhononDos_def dos_invariant_def)

text \<open>
  C5. The check of \<open>+\<close> compares the frequency arrays with a broadcasting ufunc: a
  one-point axis \<open>[0]\<close> and a two-point axis \<open>[0, 0]\<close> pass it, and an empty axis passes
  it against a one-point axis. No exception is raised; the result has the first operand's
  axis and the broadcast sum of the densities.
\<close>

theorem add_broadcasts_unequal_axes:
  "frequencies (PhononDos [0] [1]) \<noteq> frequencies (PhononDos [0, 0] [2, 3])
   \<and> dos_invariant (PhononDos [0] [1]) \<and> dos_invariant (PhononDos [0, 0] [2, 3])
   \<and> dos_add (PhononDos [0] [1]) (PhononDos [0, 0] [2, 3]) = Inr (PhononDos [0] [3, 4])
   \<and> dos_add (PhononDos [0, 0] [2, 3]) (PhononDos [0] [1]) = Inr (PhononDos [0, 0] [3, 4])
   \<and> dos_add (PhononDos [] []) (PhononDos [1] [2]) = Inr (PhononDos [] [])"
  by (simp add: dos_add_def broadcast2_def PhononDos_def dos_invariant_def)

text \<open>
  C10. For two CompletePhononDos with equal frequency arrays, each with one density per
  frequency, \<open>+\<close> returns an instance of PhononDos: it has the shared frequencies and the
  summed densities, and neither a structure nor per-site densities.
\<close>

theorem add_complete_gives_plain:
  "frequencies a = frequencies b \<and> dos_invariant a \<and> dos_invariant b \<longrightarrow>
     (\<exists>r. object_add (CompletePhononDos_object a) (CompletePhononDos_object b) = Inr r
         \<and> r = PhononDos_object (PhononDos (frequencies a) (map2 (+) (densities a) (densities b)))
         \<and> type_name r = ''PhononDos''
         \<and> ''structure'' \<notin> set (attributes r) \<and> ''pdos'' \<notin> set (attributes r))"
proof (intro impI)
  assume "frequencies a = frequencies b \<and> dos_invariant a \<and> dos_invariant b"
  then have "dos_add a b = Inr (PhononDos (frequencies a) (map2 (+) (densities a) (densities b)))"
    by (simp add: dos_add_equal_axes)
  then show "\<exists>r. object_add (CompletePhononDos_object a) (CompletePhononDos_object b) = Inr r
         \<and> r = PhononDos_object (PhononDos (frequencies a) (map2 (+) (densities a) (densities b)))
         \<and> type_name r = ''PhononDos''
         \<and> ''structure'' \<notin> set (attributes r) \<and> ''pdos'' \<notin> set (attributes r)"
    by simp
qed

theorem add_complete_gives_plain_witness:
  "frequencies NaCl_dos = frequencies NaCl_dos \<and> dos_invariant NaCl_dos
   \<and> object_add (CompletePhononDos_object NaCl_dos) (CompletePhononDos_object NaCl_dos)
        = Inr (PhononDos_object (PhononDos [0, 1, 2] [6, 10, 14]))
   \<and> type_name (PhononDos_object (PhononDos [0, 1, 2] [6, 10, 14])) = ''PhononDos''"
  using add_complete_gives_plain [of NaCl_dos NaCl_dos]
  by (simp add: NaCl_dos_def CompletePhononDos_def PhononDos_def dos_invariant_def)

lemma ising_neighbors_sum:
  "\<forall>nn \<in> set nns. nn_distance nn \<noteq> 0 \<Longrightarrow>
     ising_neighbors jj s1 nns (Some e)
       = Some (e + (\<Sum>nn \<leftarrow> nns. jj * s1 * getattr_spin (specie nn) / (nn_distance nn) ^ 2))"
proof (induction nns arbitrary: e)
  case Nil
  then show ?case by simp
next
  case (Cons nn nns)
  then have "nn_distance nn \<noteq> 0" and rest: "\<forall>nn \<in> set nns. nn_distance nn \<noteq> 0"
    by simp_all
  then have step: "lift2 (+) (Some e)
          (np_divide (Some (jj * s1 * getattr_spin (specie nn))) (Some ((nn_distance nn) ^ 2)))
        = Some (e + jj * s1 * getattr_spin (specie nn) / (nn_distance nn) ^ 2)"
    by (simp add: lift2_def np_divide_def)
  show ?case
    unfolding ising_neighbors.simps step Cons.IH [OF rest] by (simp add: add.assoc)
qed

lemma ising_sites_sum:
  "idx + length all_nn \<le> length ss \<Longrightarrow>
   \<forall>nns \<in> set all_nn. \<forall>nn \<in> set nns. nn_distance nn \<noteq> 0 \<Longrightarrow>
     ising_sites jj ss idx all_nn (Some e)
       = Inr (Some (e + (\<Sum>(i, nns) \<leftarrow> enumerate idx all_nn.
                \<Sum>nn \<leftarrow> nns. jj * getattr_spin (specie (ss ! i)) * getattr_spin (specie nn)
                              / (nn_distance nn) ^ 2)))"
proof (induction all_nn arbitrary: idx e)
  case Nil
  then show ?case by simp
next
  case (Cons nns rest)
  from Cons.prems have idx: "idx < length ss" and len: "(idx + 1) + length rest \<le> length ss"
    and d: "\<forall>nn \<in> set nns. nn_distance nn \<noteq> 0"
    and dr: "\<forall>nns \<in> set rest. \<forall>nn \<in> set nns. nn_distance nn \<noteq> 0"
    by simp_all
  show ?case
    using idx Cons.IH [OF len dr] ising_neighbors_sum [OF d]
    by (simp add: add.assoc)
qed

text \<open>
  C8. With one neighbour list per site (at most as many lists as sites) and no neighbour at
  distance 0, \<open>get_energy\<close> is the sum, over every site index \<open>i\<close> and every entry \<open>nn\<close> of
  the neighbour list that the query within \<open>max_radius\<close> gives for \<open>i\<close>, of
  \<open>j * spin(i) * spin(nn) / distance\<^sup>2\<close>. The spin of a species is its attribute
  \<open>spin\<close>, and 0 when it has none. No entry is left out: a pair listed in both directions
  counts twice.
\<close>

theorem ising_energy_sum:
  "(length (get_all_neighbors s (max_radius m)) \<le> length (sites s)
    \<and> (\<forall>nns \<in> set (get_all_neighbors s (max_radius m)). \<forall>nn \<in> set nns. nn_distance nn \<noteq> 0)
    \<longrightarrow> get_energy get_all_neighbors m s
          = Inr (Some (pair_interaction_energy (j m) (sites s) (get_all_neighbors s (max_radius m)))))
   \<and> (spin sp = None \<longrightarrow> getattr_spin sp = 0)
   \<and> (spin sp = Some v \<longrightarrow> getattr_spin sp = v)"
proof (intro conjI impI)
  assume "length (get_all_neighbors s (max_radius m)) \<le> length (sites s)
    \<and> (\<forall>nns \<in> set (get_all_neighbors s (max_radius m)). \<forall>nn \<in> set nns. nn_distance nn \<noteq> 0)"
  then have "ising_sites (j m) (sites s) 0 (get_all_neighbors s (max_radius m)) (Some 0)
      = Inr (Some (0 + pair_interaction_energy (j m) (sites s) (get_all_neighbors s (max_radius m))))"
    unfolding pair_interaction_energy_def by (intro ising_sites_sum) simp_all
  then show "get_energy get_all_neighbors m s
          = Inr (Some (pair_interaction_energy (j m) (sites s) (get_all_neighbors s (max_radius m))))"
    by (simp add: get_energy_def)
qed (simp_all add: getattr_spin_def)

theorem ising_energy_sum_witness:
  "length (Fe2O_neighbors Fe2O 3) \<le> length (sites Fe2O)
   \<and> list_all (list_all (\<lambda>nn. nn_distance nn \<noteq> 0)) (Fe2O_neighbors Fe2O 3)
   \<and> get_energy Fe2O_neighbors \<lparr>j = 2, max_radius = 3\<rparr> Fe2O = Inr (Some (2 * (2 * 5 * (-5) / 2 ^ 2)))
   \<and> getattr_spin (specie O_site) = 0"
proof -
  have a: "length (Fe2O_neighbors Fe2O (max_radius \<lparr>j = 2, max_radius = 3\<rparr>)) \<le> length (sites Fe2O)"
    by (simp add: Fe2O_neighbors_def Fe2O_def)
  have b: "\<forall>nns \<in> set (Fe2O_neighbors Fe2O (max_radius \<lparr>j = 2, max_radius = 3\<rparr>)).
             \<forall>nn \<in> set nns. nn_distance nn \<noteq> 0"
    by (simp add: Fe2O_neighbors_def as_neighbor_def)
  have c: "spin (specie O_site) = None" by (simp add: O_site_def)
  have e: "pair_interaction_energy 2 (sites Fe2O) (Fe2O_neighbors Fe2O 3) = 2 * (2 * 5 * (-5) / 2 ^ 2)"
    by (simp add: pair_interaction_energy_def Fe2O_neighbors_def as_neighbor_def Fe2O_def
          Fe_up_def Fe_down_def O_site_def getattr_spin_def enumerate_eq_zip upt_rec)
  from ising_energy_sum [of Fe2O_neighbors Fe2O "\<lparr>j = 2, max_radius = 3\<rparr>" "specie O_site"] a b c e
  show ?thesis by (simp add: list_all_iff)
qed

lemma consecutive_differences:
  "map (\<lambda>idx. fs ! (idx + 1) - fs ! idx) [0 ..< length fs - 1] = map2 (-) (tl fs) (butlast fs)"
  by (rule nth_equalityI) (simp_all add: nth_tl nth_butlast)

lemma sum_consecutive_differences:
  "fs \<noteq> [] \<Longrightarrow> sum_list (map2 (-) (tl fs) (butlast fs)) = last fs - hd (fs :: real list)"
proof (induction fs rule: list_nonempty_induct)
  case (single x)
  then show ?case by simp
next
  case (cons x xs)
  then obtain y ys where xs: "xs = y # ys" by (cases xs) auto
  with cons.IH show ?case by simp
qed

lemma get_smeared_densities_short:
  "length (frequencies d) < 2 \<Longrightarrow> get_smeared_densities smooth d sigma = Inl ZeroDivisionError"
  by (simp add: get_smeared_densities_def Let_def)

lemma get_smeared_densities_long:
  assumes "2 \<le> length (frequencies d)"
  shows "get_smeared_densities smooth d sigma
           = gaussian_filter1d smooth (densities d)
               (np_divide (Some sigma) (Some (average_frequency_spacing (frequencies d))))"
  using assms unfolding get_smeared_densities_def consecutive_differences Let_def
  by (simp add: average_frequency_spacing_def)

lemma gaussian_filter1d_returns:
  "(\<exists>ys. gaussian_filter1d smooth input (np_divide (Some sigma) (Some avg)) = Inr ys)
     \<longleftrightarrow> avg \<noteq> 0 \<and> 0 \<le> py_int (4 * (sigma / avg) + 0.5)"
  by (auto simp: gaussian_filter1d_def np_divide_def Let_def)

lemma gaussian_filter1d_smooth:
  assumes "avg \<noteq> 0" and "sigma \<noteq> 0" and "0 \<le> py_int (4 * (sigma / avg) + 0.5)"
  shows "gaussian_filter1d smooth input (np_divide (Some sigma) (Some avg))
           = Inr (map Some (smooth input (sigma / avg)))"
  using assms by (simp add: gaussian_filter1d_def np_divide_def Let_def)

lemma py_int_nonneg: "0 \<le> x \<Longrightarrow> 0 \<le> py_int x"
  by (simp add: py_int_def)

lemma strictly_ascending_ends:
  assumes "sorted_wrt (<) fs" and "2 \<le> length fs"
  shows "hd fs < last (fs :: real list)"
proof -
  from assms(2) obtain x y ys where fs: "fs = x # y # ys"
    by (cases fs; cases "tl fs") auto
  then have "last fs \<in> set (y # ys)" by (metis last_ConsR last_in_set list.distinct(1))
  with assms(1) fs show ?thesis by auto
qed

lemma strictly_ascending_spacing:
  assumes "sorted_wrt (<) fs" and "2 \<le> length fs"
  shows "0 < average_frequency_spacing fs"
proof -
  from assms(2) have "fs \<noteq> []" by auto
  then have "average_frequency_spacing fs = (last fs - hd fs) / real (length fs - 1)"
    by (simp add: average_frequency_spacing_def sum_consecutive_differences)
  moreover have "0 < last fs - hd fs" using strictly_ascending_ends [OF assms] by simp
  moreover have "0 < real (length fs - 1)" using assms(2) by simp
  ultimately show ?thesis by simp
qed

text \<open>
  C9, as stated, at concrete inputs with two or more frequency points. The points \<open>[1, 1]\<close>
  have the average spacing 0: \<open>sigma / avg_diff\<close> is not finite and the Gaussian filter
  cannot take it. The descending points \<open>[3, 1, 0]\<close> have the average spacing \<open>-3/2\<close>: for
  \<open>sigma = 1\<close> the kernel radius is \<open>int(4 * (-2/3) + 0.5) = -2\<close> and the filter has no
  kernel. Neither call returns an array.
\<close>

theorem smeared_densities_zero_spacing:
  "2 \<le> length (frequencies (PhononDos [1, 1] [2, 3]))
   \<and> average_frequency_spacing (frequencies (PhononDos [1, 1] [2, 3])) = 0
   \<and> get_smeared_densities constant_filter (PhononDos [1, 1] [2, 3]) 1 = Inl NonFiniteSigma
   \<and> 2 \<le> length (frequencies (PhononDos [3, 1, 0] [1, 2, 3]))
   \<and> average_frequency_spacing (frequencies (PhononDos [3, 1, 0] [1, 2, 3])) = - (3 / 2)
   \<and> get_smeared_densities constant_filter (PhononDos [3, 1, 0] [1, 2, 3]) 1 = Inl InvalidRadius"
proof -
  have a: "average_frequency_spacing [1, 1] = 0" "average_frequency_spacing [3, 1, 0] = - (3 / 2)"
    by (simp_all add: average_frequency_spacing_def)
  have r: "py_int (4 * (1 / - (3 / 2)) + 0.5) = - 2"
  proof -
    have "\<lceil>- (13 / 6) :: real\<rceil> = - 2" by (simp add: ceiling_eq_iff)
    then show ?thesis by (simp add: py_int_def)
  qed
  have "get_smeared_densities constant_filter (PhononDos [1, 1] [2, 3]) 1 = Inl NonFiniteSigma"
    using get_smeared_densities_long [of "PhononDos [1, 1] [2, 3]" constant_filter 1] a(1)
    by (simp add: PhononDos_def gaussian_filter1d_def np_divide_def)
  moreover have "get_smeared_densities constant_filter (PhononDos [3, 1, 0] [1, 2, 3]) 1
      = Inl InvalidRadius"
    using get_smeared_densities_long [of "PhononDos [3, 1, 0] [1, 2, 3]" constant_filter 1] a(2) r
    by (simp add: PhononDos_def gaussian_filter1d_def np_divide_def Let_def)
  ultimately show ?thesis using a by (simp add: PhononDos_def)
qed

text \<open>
  C9, amended. With fewer than two frequency points \<open>get_smeared_densities\<close> raises
  \<open>ZeroDivisionError\<close>. With two or more points the average spacing is
  \<open>(last - first) / (n - 1)\<close>, and the call returns an array exactly when this spacing is
  not 0 and the kernel radius \<open>int(4 * sigma / spacing + 0.5)\<close> is not negative; unless
  \<open>sigma\<close> is 0, the array is the Gaussian smoothing of the densities with the width
  \<open>sigma / spacing\<close>. In particular the call returns this array for every positive \<open>sigma\<close>
  when the frequencies ascend strictly. The instance is an argument of a function and is
  not changed.
\<close>

theorem smeared_densities_defined:
  "(length (frequencies d) < 2 \<longrightarrow>
       get_smeared_densities smooth d sigma = Inl ZeroDivisionError)
   \<and> (2 \<le> length (frequencies d) \<longrightarrow>
         average_frequency_spacing (frequencies d)
           = (last (frequencies d) - hd (frequencies d)) / real (length (frequencies d) - 1)
       \<and> ((\<exists>ys. get_smeared_densities smooth d sigma = Inr ys)
            \<longleftrightarrow> average_frequency_spacing (frequencies d) \<noteq> 0
                \<and> 0 \<le> py_int (4 * (sigma / average_frequency_spacing (frequencies d)) + 0.5))
       \<and> (average_frequency_spacing (frequencies d) \<noteq> 0 \<and> sigma \<noteq> 0
            \<and> 0 \<le> py_int (4 * (sigma / average_frequency_spacing (frequencies d)) + 0.5)
            \<longrightarrow> get_smeared_densities smooth d sigma
                  = Inr (map Some (smooth (densities d)
                                    (sigma / average_frequency_spacing (frequencies d))))))
   \<and> (2 \<le> length (frequencies d) \<and> sorted_wrt (<) (frequencies d) \<and> 0 < sigma \<longrightarrow>
         get_smeared_densities smooth d sigma
           = Inr (map Some (smooth (densities d)
                             (sigma / average_frequency_spacing (frequencies d)))))"
proof (intro conjI impI)
  assume "length (frequencies d) < 2"
  then show "get_smeared_densities smooth d sigma = Inl ZeroDivisionError"
    by (rule get_smeared_densities_short)
next
  assume n: "2 \<le> length (frequencies d)"
  then have "frequencies d \<noteq> []" by auto
  then show "average_frequency_spacing (frequencies d)
         = (last (frequencies d) - hd (frequencies d)) / real (length (frequencies d) - 1)"
    by (simp add: average_frequency_spacing_def sum_consecutive_differences)
  show "(\<exists>ys. get_smeared_densities smooth d sigma = Inr ys)
            \<longleftrightarrow> average_frequency_spacing (frequencies d) \<noteq> 0
                \<and> 0 \<le> py_int (4 * (sigma / average_frequency_spacing (frequencies d)) + 0.5)"
    unfolding get_smeared_densities_long [OF n] by (rule gaussian_filter1d_returns)
next
  assume n: "2 \<le> length (frequencies d)"
    and "average_frequency_spacing (frequencies d) \<noteq> 0 \<and> sigma \<noteq> 0
            \<and> 0 \<le> py_int (4 * (sigma / average_frequency_spacing (frequencies d)) + 0.5)"
  then show "get_smeared_densities smooth d sigma
                  = Inr (map Some (smooth (densities d)
                                    (sigma / average_frequency_spacing (frequencies d))))"
    unfolding get_smeared_densities_long [OF n] by (intro gaussian_filter1d_smooth) simp_all
next
  assume a: "2 \<le> length (frequencies d) \<and> sorted_wrt (<) (frequencies d) \<and> 0 < sigma"
  then have n: "2 \<le> length (frequencies d)" and s: "0 < sigma" by simp_all
  from a have avg: "0 < average_frequency_spacing (frequencies d)"
    by (simp add: strictly_ascending_spacing)
  with s have "0 \<le> 4 * (sigma / average_frequency_spacing (frequencies d)) + 0.5" by simp
  then have "0 \<le> py_int (4 * (sigma / average_frequency_spacing (frequencies d)) + 0.5)"
    by (rule py_int_nonneg)
  with avg s show "get_smeared_densities smooth d sigma
           = Inr (map Some (smooth (densities d)
                             (sigma / average_frequency_spacing (frequencies d))))"
    unfolding get_smeared_densities_long [OF n] by (intro gaussian_filter1d_smooth) simp_all
qed

theorem smeared_densities_defined_witness:
  "length (frequencies (PhononDos [5] [1])) < 2
   \<and> (\<forall>smooth. get_smeared_densities smooth (PhononDos [5] [1]) 1 = Inl ZeroDivisionError)
   \<and> 2 \<le> length (frequencies (PhononDos [0, 1, 3] [1, 2, 3]))
   \<and> sorted_wrt (<) (frequencies (PhononDos [0, 1, 3] [1, 2, 3]))
   \<and> (0 :: real) < 1
   \<and> average_frequency_spacing (frequencies (PhononDos [0, 1, 3] [1, 2, 3])) = 3 / 2
   \<and> (\<forall>smooth. get_smeared_densities smooth (PhononDos [0, 1, 3] [1, 2, 3]) 1
         = Inr (map Some (smooth [1, 2, 3] (2 / 3))))"
proof -
  have a: "average_frequency_spacing (frequencies (PhononDos [0, 1, 3] [1, 2, 3])) = 3 / 2"
    by (simp add: average_frequency_spacing_def PhononDos_def)
  have short: "get_smeared_densities smooth (PhononDos [5] [1]) 1 = Inl ZeroDivisionError"
    for smooth
    using smeared_densities_defined [of "PhononDos [5] [1]" smooth 1]
    by (simp add: PhononDos_def)
  have h: "2 \<le> length (frequencies (PhononDos [0, 1, 3] [1, 2, 3]))
      \<and> sorted_wrt (<) (frequencies (PhononDos [0, 1, 3] [1, 2, 3])) \<and> (0 :: real) < 1"
    by (simp add: PhononDos_def)
  have long: "get_smeared_densities smooth (PhononDos [0, 1, 3] [1, 2, 3]) 1
         = Inr (map Some (smooth [1, 2, 3] (2 / 3)))" for smooth
  proof -
    from smeared_densities_defined [of "PhononDos [0, 1, 3] [1, 2, 3]" smooth 1] h
    have "get_smeared_densities smooth (PhononDos [0, 1, 3] [1, 2, 3]) 1
           = Inr (map Some (smooth (densities (PhononDos [0, 1, 3] [1, 2, 3]))
                (1 / average_frequency_spacing (frequencies (PhononDos [0, 1, 3] [1, 2, 3])))))"
      by blast
    then show ?thesis unfolding a by (simp add: PhononDos_def)
  qed
  from short long a h show ?thesis by (simp add: PhononDos_def)
qed

lemma from_dict_as_dict: "from_dict (as_dict x) = Inr x"
  by (simp add: from_dict_def as_dict_def getitem_def PhononDos_def)

lemma map_of_dict_of_pairs:
  "map_of (dict_of_pairs acc (zip ss (map f ss))) k
     = (if k \<in> set ss then Some (f k) else map_of acc k)"
proof (induction ss arbitrary: acc)
  case Nil
  then show ?case by simp
next
  case (Cons s rest)
  show ?case by (simp add: Cons.IH update_conv')
qed

lemma pdos_in_site_order_total:
  "set ss \<subseteq> fst ` set d \<Longrightarrow>
     pdos_in_site_order d ss = Inr (map (\<lambda>s. the (map_of d s)) ss)"
proof (induction ss)
  case Nil
  then show ?case by simp
next
  case (Cons s rest)
  then have "s \<in> fst ` set d" by simp
  then obtain v where "map_of d s = Some v"
    by (metis domD dom_map_of_conv_image_fst)
  with Cons show ?case by (simp add: getitem_def)
qed

lemma CompletePhononDos_pdos: "pdos (CompletePhononDos st t ps) = ps"
  by (simp add: CompletePhononDos_def case_prod_unfold)

lemma complete_round_trip:
  assumes sd: "structure_from_dict (structure_as_dict (dos_structure x)) = Inr (dos_structure x)"
    and keys: "pdos x = [] \<or> fst ` set (pdos x) = set (sites (dos_structure x))"
  obtains dct y where "complete_as_dict structure_as_dict x = Inr dct"
    and "complete_from_dict structure_from_dict dct = Inr y"
    and "frequencies y = frequencies x" and "densities y = densities x"
    and "dos_structure y = dos_structure x" and "map_of (pdos y) = map_of (pdos x)"
    and "dict_pdos dct = Some (if pdos x = [] then []
            else map (\<lambda>s. the (map_of (pdos x) s)) (sites (dos_structure x)))"
    and "pdos y = dict_of_pairs [] (zip (sites (dos_structure x)) (the (dict_pdos dct)))"
proof -
  let ?st = "dos_structure x"
  let ?out = "if pdos x = [] then [] else map (\<lambda>s. the (map_of (pdos x) s)) (sites ?st)"
  let ?dct = "\<lparr>at_module = Some ''pymatgen.phonon.dos'', at_class = Some ''CompletePhononDos'',
               dict_structure = Some (structure_as_dict ?st),
               dict_frequencies = Some (frequencies x), dict_densities = Some (densities x),
               dict_pdos = Some ?out\<rparr>"
  let ?y = "CompletePhononDos ?st (PhononDos (frequencies x) (densities x))
              (dict_of_pairs [] (zip (sites ?st) ?out))"
  have ser: "complete_as_dict structure_as_dict x = Inr ?dct"
  proof (cases "pdos x = []")
    case True
    then show ?thesis by (simp add: complete_as_dict_def)
  next
    case False
    with keys have "set (sites ?st) \<subseteq> fst ` set (pdos x)" by simp
    from pdos_in_site_order_total [OF this] False show ?thesis
      by (simp add: complete_as_dict_def)
  qed
  have de: "complete_from_dict structure_from_dict ?dct = Inr ?y"
    by (simp add: complete_from_dict_def from_dict_def getitem_def sd)
  have m: "map_of (pdos ?y) = map_of (pdos x)"
  proof (cases "pdos x = []")
    case True
    then show ?thesis by (simp add: CompletePhononDos_pdos)
  next
    case False
    with keys have k: "fst ` set (pdos x) = set (sites ?st)" by simp
    have "map_of (dict_of_pairs [] (zip (sites ?st) (map (\<lambda>s. the (map_of (pdos x) s)) (sites ?st)))) k
            = map_of (pdos x) k" for k
    proof (cases "k \<in> set (sites ?st)")
      case True
      then have "k \<in> fst ` set (pdos x)" using k by simp
      then obtain v where "map_of (pdos x) k = Some v"
        by (metis domD dom_map_of_conv_image_fst)
      with True show ?thesis by (simp add: map_of_dict_of_pairs)
    next
      case notin: False
      then have "k \<notin> fst ` set (pdos x)" using k by simp
      then have "map_of (pdos x) k = None" by (simp add: map_of_eq_None_iff)
      with notin show ?thesis by (simp add: map_of_dict_of_pairs)
    qed
    with False show ?thesis by (simp add: CompletePhononDos_pdos fun_eq_iff)
  qed
  show thesis
  proof (rule that [OF ser de])
    show "frequencies ?y = frequencies x" "densities ?y = densities x" "dos_structure ?y = ?st"
      by (simp_all add: CompletePhononDos_def PhononDos_def)
    show "map_of (pdos ?y) = map_of (pdos x)" by (rule m)
    show "dict_pdos ?dct = Some ?out" by simp
    show "pdos ?y = dict_of_pairs [] (zip (sites ?st) (the (dict_pdos ?dct)))"
      by (simp add: CompletePhononDos_pdos)
  qed
qed

text \<open>
  C7. \<open>from_dict (as_dict x)\<close> is \<open>x\<close> for every PhononDos. For a CompletePhononDos whose
  per-site densities are either absent or keyed by exactly the sites of its structure, and
  whose structure survives its own round trip, \<open>as_dict\<close> writes the per-site densities as
  a list in the structure's site order, and \<open>from_dict\<close> of that dict zips the sites with
  the list again: frequencies, densities and structure are those of \<open>x\<close>, and each site has
  the density sequence it had.
\<close>

theorem dict_round_trip:
  "from_dict (as_dict x) = Inr x
   \<and> (structure_from_dict (structure_as_dict (dos_structure c)) = Inr (dos_structure c)
      \<and> (pdos c = [] \<or> fst ` set (pdos c) = set (sites (dos_structure c)))
      \<longrightarrow> (\<exists>dct y. complete_as_dict structure_as_dict c = Inr dct
             \<and> complete_from_dict structure_from_dict dct = Inr y
             \<and> frequencies y = frequencies c \<and> densities y = densities c
             \<and> dos_structure y = dos_structure c
             \<and> map_of (pdos y) = map_of (pdos c)
             \<and> dict_pdos dct = Some (if pdos c = [] then []
                  else map (\<lambda>s. the (map_of (pdos c) s)) (sites (dos_structure c)))
             \<and> pdos y = dict_of_pairs [] (zip (sites (dos_structure c)) (the (dict_pdos dct)))))"
proof (intro conjI impI)
  show "from_dict (as_dict x) = Inr x" by (rule from_dict_as_dict)
next
  assume a: "structure_from_dict (structure_as_dict (dos_structure c)) = Inr (dos_structure c)
      \<and> (pdos c = [] \<or> fst ` set (pdos c) = set (sites (dos_structure c)))"
  then have sd: "structure_from_dict (structure_as_dict (dos_structure c)) = Inr (dos_structure c)"
    and keys: "pdos c = [] \<or> fst ` set (pdos c) = set (sites (dos_structure c))"
    by simp_all
  from complete_round_trip [where structure_from_dict = structure_from_dict
      and structure_as_dict = structure_as_dict and x = c, OF sd keys]
  show "\<exists>dct y. complete_as_dict structure_as_dict c = Inr dct
             \<and> complete_from_dict structure_from_dict dct = Inr y
             \<and> frequencies y = frequencies c \<and> densities y = densities c
             \<and> dos_structure y = dos_structure c
             \<and> map_of (pdos y) = map_of (pdos c)
             \<and> dict_pdos dct = Some (if pdos c = [] then []
                  else map (\<lambda>s. the (map_of (pdos c) s)) (sites (dos_structure c)))
             \<and> pdos y = dict_of_pairs [] (zip (sites (dos_structure c)) (the (dict_pdos dct)))"
    by metis
qed

theorem dict_round_trip_witness:
  "from_dict (as_dict (PhononDos [0, 1, 2] [3, 5, 7]) :: Structure dos_dict)
     = Inr (PhononDos [0, 1, 2] [3, 5, 7])
   \<and> fst ` set (pdos NaCl_dos) = set (sites (dos_structure NaCl_dos))
   \<and> (\<exists>dct y. complete_as_dict id NaCl_dos = Inr dct
          \<and> complete_from_dict Inr dct = Inr y
          \<and> frequencies y = [0, 1, 2] \<and> densities y = [3, 5, 7] \<and> dos_structure y = NaCl
          \<and> dict_pdos dct = Some [[1, 2, 3], [2, 3, 4]]
          \<and> pdos y = [(Na_site, [1, 2, 3]), (Cl_site, [2, 3, 4])])"
proof -
  have ne: "Na_site \<noteq> Cl_site" by (simp add: Na_site_def Cl_site_def)
  have k: "fst ` set (pdos NaCl_dos) = set (sites (dos_structure NaCl_dos))"
    by (simp add: NaCl_dos_def CompletePhononDos_def NaCl_def)
  have sd: "Inr (id (dos_structure NaCl_dos)) = (Inr (dos_structure NaCl_dos) :: error + Structure)"
    by simp
  from dict_round_trip [of "PhononDos [0, 1, 2] [3, 5, 7]" Inr id NaCl_dos] k sd
  obtain dct :: "Structure dos_dict" and y where r: "complete_as_dict id NaCl_dos = Inr dct"
    "complete_from_dict Inr dct = Inr y"
    "frequencies y = frequencies NaCl_dos" "densities y = densities NaCl_dos"
    "dos_structure y = dos_structure NaCl_dos"
    "dict_pdos dct = Some (if pdos NaCl_dos = [] then []
        else map (\<lambda>s. the (map_of (pdos NaCl_dos) s)) (sites (dos_structure NaCl_dos)))"
    "pdos y = dict_of_pairs [] (zip (sites (dos_structure NaCl_dos)) (the (dict_pdos dct)))"
    by blast
  have p: "dict_pdos dct = Some [[1, 2, 3], [2, 3, 4]]"
    using r(6) ne by (simp add: NaCl_dos_def CompletePhononDos_def NaCl_def)
  have q: "pdos y = [(Na_site, [1, 2, 3]), (Cl_site, [2, 3, 4])]"
    using r(7) p ne by (simp add: NaCl_dos_def CompletePhononDos_def NaCl_def)
  have f: "frequencies y = [0, 1, 2]" "densities y = [3, 5, 7]" "dos_structure y = NaCl"
    using r(3-5) by (simp_all add: NaCl_dos_def CompletePhononDos_def PhononDos_def)
  have rt: "from_dict (as_dict (PhononDos [0, 1, 2] [3, 5, 7]) :: Structure dos_dict)
     = Inr (PhononDos [0, 1, 2] [3, 5, 7])"
    by (rule dict_round_trip [THEN conjunct1])
  from rt k r(1,2) f p q show ?thesis by blast
qed

end
